theory Spec2Isabelle
  imports Complex_Main "HOL-Library.Word"
begin

unbundle bit_operations_syntax

section \<open>Python floats\<close>

text \<open>
  A Python float is an IEEE-754 double: a finite value (always a rational number), one of
  the two infinities, or NaN. Every theorem below that speaks of \<open>Finite a\<close> is proved for
  every rational \<open>a\<close>, hence for every finite double.
\<close>

datatype pyfloat = Finite rat | PosInf | NegInf | NaN

datatype py_error = ValueError | OverflowError | UndefinedCast

text \<open>The comparison \<open>a < b\<close> of two floats; every comparison with NaN is false.\<close>

fun fl_lt :: "pyfloat \<Rightarrow> pyfloat \<Rightarrow> bool" where
  "fl_lt NaN _ = False"
| "fl_lt _ NaN = False"
| "fl_lt (Finite a) (Finite b) = (a < b)"
| "fl_lt (Finite a) PosInf = True"
| "fl_lt (Finite a) NegInf = False"
| "fl_lt PosInf _ = False"
| "fl_lt NegInf (Finite b) = True"
| "fl_lt NegInf PosInf = True"
| "fl_lt NegInf NegInf = False"

text \<open>
  The builtins \<open>min(a, b)\<close> and \<open>max(a, b)\<close> keep their first argument unless the second
  one compares strictly smaller (for \<open>min\<close>) or strictly greater (for \<open>max\<close>).
\<close>

definition py_min :: "pyfloat \<Rightarrow> pyfloat \<Rightarrow> pyfloat" where
  "py_min a b = (if fl_lt b a then b else a)"

definition py_max :: "pyfloat \<Rightarrow> pyfloat \<Rightarrow> pyfloat" where
  "py_max a b = (if fl_lt a b then b else a)"

text \<open>
  The product \<open>value * 32768\<close>. Scaling a double by \<open>2 ^ 15\<close> only shifts its exponent,
  so the product is exact unless it leaves the range of doubles, where it is an infinity.
\<close>

definition DBL_MAX :: rat where
  "DBL_MAX = (2 ^ 53 - 1) * 2 ^ 971"

fun mul_32768 :: "pyfloat \<Rightarrow> pyfloat" where
  "mul_32768 (Finite a) =
     (if DBL_MAX < a * 32768 then PosInf
      else if a * 32768 < - DBL_MAX then NegInf
      else Finite (a * 32768))"
| "mul_32768 PosInf = PosInf"
| "mul_32768 NegInf = NegInf"
| "mul_32768 NaN = NaN"

text \<open>
  Rounding to the nearest integer, a tie going to the even neighbour: what \<open>round(x)\<close>
  and \<open>numpy.round\<close> compute on a double.
\<close>

definition round_half_even :: "rat \<Rightarrow> int" where
  "round_half_even x =
     (let f = \<lfloor>x\<rfloor>; d = x - of_int f
      in if d < 1 / 2 then f
         else if 1 / 2 < d then f + 1
         else if even f then f else f + 1)"

text \<open>\<open>int(round(x))\<close>: \<open>round\<close> raises on NaN and on the infinities.\<close>

fun py_round :: "pyfloat \<Rightarrow> py_error + int" where
  "py_round (Finite a) = Inr (round_half_even a)"
| "py_round PosInf = Inl OverflowError"
| "py_round NegInf = Inl OverflowError"
| "py_round NaN = Inl ValueError"

section \<open>Formatting an integer with \<open>'04X'\<close>\<close>

definition hex_digit :: "nat \<Rightarrow> char" where
  "hex_digit d = ''0123456789ABCDEF'' ! (d mod 16)"

fun hex_digits :: "nat \<Rightarrow> string" where
  "hex_digits n =
     (if n < 16 then [hex_digit n] else hex_digits (n div 16) @ [hex_digit (n mod 16)])"

declare hex_digits.simps [simp del]

definition zero_pad :: "nat \<Rightarrow> string \<Rightarrow> string" where
  "zero_pad w s = replicate (w - length s) (CHR ''0'') @ s"

text \<open>
  \<open>format(n, '04X')\<close>: uppercase hexadecimal, padded with zeros to at least four
  characters, the sign of a negative number counting as one of them.
\<close>

definition format_04X :: "int \<Rightarrow> string" where
  "format_04X n =
     (if n < 0 then CHR ''-'' # zero_pad 3 (hex_digits (nat (- n)))
      else zero_pad 4 (hex_digits (nat n)))"

section \<open>\<open>scripts/convert_params_to_hex.py\<close>\<close>

text \<open>The upper bound \<open>0.999969482421875\<close> of the clamp is exactly \<open>32767 / 32768\<close>.\<close>

definition Q15_MAX :: rat where
  "Q15_MAX = 32767 / 32768"

text \<open>Line 14: \<open>value = max(-1.0, min(value, 0.999969482421875))\<close>.\<close>

definition clamp_q15 :: "pyfloat \<Rightarrow> pyfloat" where
  "clamp_q15 v = py_max (Finite (- 1)) (py_min v (Finite Q15_MAX))"

text \<open>Lines 20 to 23: the overflow guard.\<close>

definition overflow_guard :: "int \<Rightarrow> int" where
  "overflow_guard q = (if q > 32767 then 32767 else if q < - 32768 then - 32768 else q)"

text \<open>Lines 26 and 27: the two's complement of a negative value.\<close>

definition to_unsigned16 :: "int \<Rightarrow> int" where
  "to_unsigned16 q = (if q < 0 then q + 65536 else q)"

text \<open>The integer that line 29 formats, or the exception that \<open>round\<close> raised.\<close>

definition q15_word :: "pyfloat \<Rightarrow> py_error + int" where
  "q15_word v =
     (case py_round (mul_32768 (clamp_q15 v)) of
        Inl e \<Rightarrow> Inl e
      | Inr q \<Rightarrow> Inr (to_unsigned16 (overflow_guard q)))"

definition float_to_q15_hex :: "pyfloat \<Rightarrow> py_error + string" where
  "float_to_q15_hex v =
     (case q15_word v of Inl e \<Rightarrow> Inl e | Inr w \<Rightarrow> Inr (format_04X w))"

section \<open>\<open>parameters/extract_gan_parameters.py\<close>\<close>

text \<open>
  The literal \<open>0.999969\<close> denotes the double nearest to it, which is
  \<open>9006920031564095 / 2 ^ 53\<close>.
\<close>

definition CLIP_HI :: rat where
  "CLIP_HI = 9006920031564095 / 9007199254740992"

text \<open>\<open>numpy.clip(x, lo, hi)\<close> is \<open>minimum(maximum(x, lo), hi)\<close>; NaN stays NaN.\<close>

fun np_clip :: "pyfloat \<Rightarrow> rat \<Rightarrow> rat \<Rightarrow> pyfloat" where
  "np_clip (Finite a) lo hi = Finite (min (max a lo) hi)"
| "np_clip PosInf lo hi = Finite hi"
| "np_clip NegInf lo hi = Finite (min lo hi)"
| "np_clip NaN lo hi = NaN"

text \<open>\<open>numpy.round\<close> keeps the float type and leaves NaN and the infinities alone.\<close>

fun np_round :: "pyfloat \<Rightarrow> pyfloat" where
  "np_round (Finite a) = Finite (of_int (round_half_even a))"
| "np_round PosInf = PosInf"
| "np_round NegInf = NegInf"
| "np_round NaN = NaN"

text \<open>
  \<open>astype(numpy.int16)\<close> truncates towards zero; the cast of a value outside the range
  of the type, of NaN or of an infinity is not defined.
\<close>

definition trunc_rat :: "rat \<Rightarrow> int" where
  "trunc_rat a = (if 0 \<le> a then \<lfloor>a\<rfloor> else \<lceil>a\<rceil>)"

fun astype_int16 :: "pyfloat \<Rightarrow> py_error + 16 word" where
  "astype_int16 (Finite a) =
     (if - 32768 \<le> trunc_rat a \<and> trunc_rat a \<le> 32767
      then Inr (word_of_int (trunc_rat a)) else Inl UndefinedCast)"
| "astype_int16 PosInf = Inl UndefinedCast"
| "astype_int16 NegInf = Inl UndefinedCast"
| "astype_int16 NaN = Inl UndefinedCast"

text \<open>Lines 81 to 87, on one element of the array.\<close>

definition convert_to_fixed_point_q15 :: "pyfloat \<Rightarrow> py_error + 16 word" where
  "convert_to_fixed_point_q15 v = astype_int16 (np_round (mul_32768 (np_clip v (- 1) CLIP_HI)))"

text \<open>Lines 99 and 100 of \<open>save_q15_hex\<close>: \<open>int(val) & 0xFFFF\<close>, formatted with \<open>04X\<close>.\<close>

definition hex_val :: "16 word \<Rightarrow> int" where
  "hex_val w = sint w AND 65535"

definition save_q15_hex :: "pyfloat \<Rightarrow> py_error + string" where
  "save_q15_hex v =
     (case convert_to_fixed_point_q15 v of
        Inl e \<Rightarrow> Inl e
      | Inr w \<Rightarrow> Inr (format_04X (hex_val w)))"

section \<open>\<open>convert_file\<close>\<close>

text \<open>
  \<open>str.isspace\<close> on the code points below 256, and with it \<open>str.strip()\<close> and
  \<open>str.split()\<close>: the maximal runs of characters that are not whitespace.
\<close>

definition py_isspace :: "char \<Rightarrow> bool" where
  "py_isspace c = ((of_char c :: nat) \<in> {9, 10, 11, 12, 13, 28, 29, 30, 31, 32, 133, 160})"

definition py_strip :: "string \<Rightarrow> string" where
  "py_strip s = rev (dropWhile py_isspace (rev (dropWhile py_isspace s)))"

fun split_ws :: "string \<Rightarrow> string \<Rightarrow> string list" where
  "split_ws cur [] = (if cur = [] then [] else [cur])"
| "split_ws cur (c # cs) =
     (if py_isspace c then (if cur = [] then split_ws [] cs else cur # split_ws [] cs)
      else split_ws (cur @ [c]) cs)"

definition py_split :: "string \<Rightarrow> string list" where
  "py_split s = split_ws [] s"

definition newline :: char where
  "newline = CHR 0x0A"

definition dec_digit :: "nat \<Rightarrow> char" where
  "dec_digit d = ''0123456789'' ! (d mod 10)"

fun dec_digits :: "nat \<Rightarrow> string" where
  "dec_digits n =
     (if n < 10 then [dec_digit n] else dec_digits (n div 10) @ [dec_digit (n mod 10)])"

declare dec_digits.simps [simp del]

definition warning_msg :: "string \<Rightarrow> string \<Rightarrow> string" where
  "warning_msg input_path token =
     ''Warning: Could not parse '' @ [CHR 0x27] @ token @ [CHR 0x27] @ '' in '' @ input_path"

definition converted_msg :: "string \<Rightarrow> string \<Rightarrow> nat \<Rightarrow> string" where
  "converted_msg input_path output_path n =
     ''Converted '' @ input_path @ '' -> '' @ output_path @ '' ('' @ dec_digits n @ '' values)''"

text \<open>
  The state of the reading loop (lines 33 to 44): the list \<open>values\<close> and what has been
  printed. The builtin \<open>float(token)\<close> is a parameter \<open>parse\<close>: it returns a float or
  raises \<open>ValueError\<close>, which is \<open>None\<close> here.
\<close>

record reader =
  vals :: "pyfloat list"
  printed :: "string list"

definition read_token :: "(string \<Rightarrow> pyfloat option) \<Rightarrow> string \<Rightarrow> string \<Rightarrow> reader \<Rightarrow> reader" where
  "read_token parse input_path token st =
     (if token \<noteq> [] then
        (case parse token of
           Some v \<Rightarrow> st\<lparr>vals := vals st @ [v]\<rparr>
         | None \<Rightarrow> st\<lparr>printed := printed st @ [warning_msg input_path token]\<rparr>)
      else st)"

definition read_line :: "(string \<Rightarrow> pyfloat option) \<Rightarrow> string \<Rightarrow> string \<Rightarrow> reader \<Rightarrow> reader" where
  "read_line parse input_path line st =
     fold (read_token parse input_path) (py_split (py_strip line)) st"

definition read_lines :: "(string \<Rightarrow> pyfloat option) \<Rightarrow> string \<Rightarrow> string list \<Rightarrow> reader" where
  "read_lines parse input_path lines =
     fold (read_line parse input_path) lines \<lparr>vals = [], printed = []\<rparr>"

text \<open>
  The writing loop (lines 47 to 50) appends \<open>hex_val + '\n'\<close> to the output file for each
  value; an exception of \<open>float_to_q15_hex\<close> would leave the loop.
\<close>

fun write_values :: "pyfloat list \<Rightarrow> string \<Rightarrow> py_error + string" where
  "write_values [] out = Inr out"
| "write_values (v # vs) out =
     (case float_to_q15_hex v of
        Inl e \<Rightarrow> Inl e
      | Inr h \<Rightarrow> write_values vs (out @ h @ [newline]))"

record conversion =
  written :: string
  console :: "string list"

text \<open>
  \<open>convert_file\<close> on the lines that iterating over the input file yields: the contents
  of the output file and the lines printed, or the exception that ended it.
\<close>

definition convert_file ::
  "(string \<Rightarrow> pyfloat option) \<Rightarrow> string \<Rightarrow> string \<Rightarrow> string list \<Rightarrow> py_error + conversion" where
  "convert_file parse input_path output_path lines =
     (let st = read_lines parse input_path lines
      in case write_values (vals st) [] of
           Inl e \<Rightarrow> Inl e
         | Inr out \<Rightarrow>
             Inr \<lparr>written = out,
                  console = printed st @ [converted_msg input_path output_path (length (vals st))]\<rparr>)"

section \<open>The specification's operations\<close>

text \<open>
  The specification's \<open>quantize\<close>, in its own words: clamp the value to
  \<open>[-1.0, 0.999969482421875]\<close>, multiply by 32768 and round to the nearest integer, clamp
  the integer to \<open>[-32768, 32767]\<close>, and add 65536 to a negative result. The specification
  leaves the treatment of ties open, so the rounding is a parameter \<open>rnd\<close>, and
  \<open>nearest_int\<close> says what it asks of it.
\<close>

definition nearest_int :: "rat \<Rightarrow> int \<Rightarrow> bool" where
  "nearest_int x r = (\<bar>of_int r - x\<bar> \<le> 1 / 2)"

definition spec_clamp :: "rat \<Rightarrow> rat" where
  "spec_clamp v = (if v < - 1 then - 1 else if v > 32767 / 32768 then 32767 / 32768 else v)"

definition spec_guard :: "int \<Rightarrow> int" where
  "spec_guard r = (if r > 32767 then 32767 else if r < - 32768 then - 32768 else r)"

definition spec_encode :: "int \<Rightarrow> int" where
  "spec_encode r = (if r < 0 then r + 65536 else r)"

definition quantize :: "(rat \<Rightarrow> int) \<Rightarrow> rat \<Rightarrow> int" where
  "quantize rnd v = spec_encode (spec_guard (rnd (spec_clamp v * 32768)))"

text \<open>The specification's \<open>format_hex\<close>: four uppercase hexadecimal digits.\<close>

definition format_hex :: "int \<Rightarrow> string" where
  "format_hex w =
     [hex_digit (nat (w div 4096 mod 16)), hex_digit (nat (w div 256 mod 16)),
      hex_digit (nat (w div 16 mod 16)), hex_digit (nat (w mod 16))]"

definition quantize_sequence :: "(rat \<Rightarrow> int) \<Rightarrow> rat list \<Rightarrow> string list" where
  "quantize_sequence rnd vs = map (\<lambda>v. format_hex (quantize rnd v)) vs"

text \<open>
  Decoding a hex word, as the round-trip property of the specification describes it: the
  unsigned value of the digits, read as a signed 16-bit integer, divided by 32768.
\<close>

definition hex_value :: "char \<Rightarrow> nat" where
  "hex_value c =
     (let n = of_char c
      in if 48 \<le> n \<and> n \<le> 57 then n - 48 else if 65 \<le> n \<and> n \<le> 70 then n - 55 else 0)"

definition parse_hex :: "string \<Rightarrow> int" where
  "parse_hex s = foldl (\<lambda>acc c. 16 * acc + int (hex_value c)) 0 s"

definition decode_q15 :: "string \<Rightarrow> rat" where
  "decode_q15 s =
     (let u = parse_hex s; q = (if u \<ge> 32768 then u - 65536 else u) in of_int q / 32768)"

definition is_upper_hex :: "char \<Rightarrow> bool" where
  "is_upper_hex c = (c \<in> set ''0123456789ABCDEF'')"

section \<open>Rounding and clamping\<close>

lemma DBL_MAX_ge: "32768 \<le> DBL_MAX"
  by (simp add: DBL_MAX_def)

lemma clamp_q15_Finite: "clamp_q15 (Finite a) = Finite (spec_clamp a)"
  by (simp add: clamp_q15_def py_min_def py_max_def spec_clamp_def Q15_MAX_def)

lemma spec_clamp_bounds: "- 1 \<le> spec_clamp a \<and> spec_clamp a \<le> 32767 / 32768"
  by (simp add: spec_clamp_def)

lemma mul_32768_small:
  assumes "- 1 \<le> a" and "a \<le> 1"
  shows "mul_32768 (Finite a) = Finite (a * 32768)"
  using assms DBL_MAX_ge by simp

lemma round_half_even_nearest: "\<bar>of_int (round_half_even x) - x\<bar> \<le> 1 / 2"
proof -
  have lo: "of_int \<lfloor>x\<rfloor> \<le> x" and hi: "x < of_int \<lfloor>x\<rfloor> + 1"
    by linarith+
  show ?thesis
    using lo hi unfolding round_half_even_def Let_def
    by (auto simp: abs_le_iff)
qed

lemma round_half_even_of_int: "round_half_even (of_int k) = k"
  by (simp add: round_half_even_def)

lemma round_half_even_lower:
  assumes "of_int k \<le> x"
  shows "k \<le> round_half_even x"
proof -
  have "k \<le> \<lfloor>x\<rfloor>" using assms by (simp add: le_floor_iff)
  then show ?thesis unfolding round_half_even_def Let_def by simp
qed

lemma round_half_even_upper:
  assumes "x \<le> of_int k"
  shows "round_half_even x \<le> k"
proof (cases "x = of_int k")
  case True
  then show ?thesis by (simp add: round_half_even_of_int)
next
  case False
  then have "x < of_int k" using assms by simp
  then have "\<lfloor>x\<rfloor> < k" by (simp add: floor_less_iff)
  then show ?thesis unfolding round_half_even_def Let_def by simp
qed

section \<open>Hexadecimal digits\<close>

lemma hex_value_hex_digit:
  assumes "d < 16"
  shows "hex_value (hex_digit d) = d"
proof -
  have "d = 0 \<or> d = 1 \<or> d = 2 \<or> d = 3 \<or> d = 4 \<or> d = 5 \<or> d = 6 \<or> d = 7
      \<or> d = 8 \<or> d = 9 \<or> d = 10 \<or> d = 11 \<or> d = 12 \<or> d = 13 \<or> d = 14 \<or> d = 15"
    using assms by presburger
  then show ?thesis
    by (elim disjE) (simp_all add: hex_digit_def hex_value_def)
qed

lemma is_upper_hex_hex_digit: "is_upper_hex (hex_digit d)"
proof -
  have "d mod 16 < 16" by simp
  then show ?thesis
    unfolding hex_digit_def is_upper_hex_def by (intro nth_mem) simp
qed

lemma hex_digit_0: "hex_digit 0 = CHR ''0''"
  by (simp add: hex_digit_def)

lemma hex_digits_1: "n < 16 \<Longrightarrow> hex_digits n = [hex_digit n]"
  by (subst hex_digits.simps) simp

lemma hex_digits_step: "16 \<le> n \<Longrightarrow> hex_digits n = hex_digits (n div 16) @ [hex_digit (n mod 16)]"
  by (subst hex_digits.simps) simp

lemma hex_digit_mod: "hex_digit (n mod 16) = hex_digit n"
  by (simp add: hex_digit_def)

lemma replicate_3: "replicate 3 x = [x, x, x]"
  by (simp add: numeral_3_eq_3)

lemma replicate_2: "replicate 2 x = [x, x]"
  by (simp add: numeral_2_eq_2)

lemma zero_pad_hex_digits:
  assumes "n < 65536"
  shows "zero_pad 4 (hex_digits n) =
    [hex_digit (n div 4096), hex_digit (n div 256), hex_digit (n div 16), hex_digit n]"
proof -
  consider "n < 16" | "16 \<le> n" "n < 256" | "256 \<le> n" "n < 4096" | "4096 \<le> n"
    by linarith
  then show ?thesis
  proof cases
    case 1
    then have "hex_digits n = [hex_digit n]" by (rule hex_digits_1)
    moreover from 1 have "n div 4096 = 0" "n div 256 = 0" "n div 16 = 0" by simp_all
    ultimately show ?thesis
      by (simp add: zero_pad_def hex_digit_0 replicate_3)
  next
    case 2
    then have "n div 16 < 16" by simp
    then have "hex_digits (n div 16) = [hex_digit (n div 16)]" by (rule hex_digits_1)
    with 2 have "hex_digits n = [hex_digit (n div 16), hex_digit n]"
      by (simp add: hex_digits_step [of n] hex_digit_mod)
    moreover from 2 have "n div 4096 = 0" "n div 256 = 0" by simp_all
    ultimately show ?thesis
      by (simp add: zero_pad_def hex_digit_0 replicate_2)
  next
    case 3
    have b: "n div 16 div 16 = n div 256" by (simp add: div_mult2_eq [symmetric])
    from 3 have "n div 256 < 16" by simp
    then have "hex_digits (n div 256) = [hex_digit (n div 256)]" by (rule hex_digits_1)
    moreover from 3 have "16 \<le> n div 16" by simp
    then have "hex_digits (n div 16) = hex_digits (n div 256) @ [hex_digit (n div 16)]"
      by (simp add: hex_digits_step [of "n div 16"] hex_digit_mod b)
    moreover from 3 have "16 \<le> n" by simp
    then have "hex_digits n = hex_digits (n div 16) @ [hex_digit n]"
      by (simp add: hex_digits_step [of n] hex_digit_mod)
    moreover from 3 have "n div 4096 = 0" by simp
    ultimately show ?thesis
      by (simp add: zero_pad_def hex_digit_0)
  next
    case 4
    have b: "n div 16 div 16 = n div 256" "n div 256 div 16 = n div 4096"
      by (simp_all add: div_mult2_eq [symmetric])
    from assms have "n div 4096 < 16" by simp
    then have "hex_digits (n div 4096) = [hex_digit (n div 4096)]" by (rule hex_digits_1)
    moreover from 4 have "16 \<le> n div 256" by simp
    then have "hex_digits (n div 256) = hex_digits (n div 4096) @ [hex_digit (n div 256)]"
      by (simp add: hex_digits_step [of "n div 256"] hex_digit_mod b)
    moreover from 4 have "16 \<le> n div 16" by simp
    then have "hex_digits (n div 16) = hex_digits (n div 256) @ [hex_digit (n div 16)]"
      by (simp add: hex_digits_step [of "n div 16"] hex_digit_mod b)
    moreover from 4 have "16 \<le> n" by simp
    then have "hex_digits n = hex_digits (n div 16) @ [hex_digit n]"
      by (simp add: hex_digits_step [of n] hex_digit_mod)
    ultimately show ?thesis
      by (simp add: zero_pad_def)
  qed
qed

lemma format_hex_nat:
  assumes "0 \<le> w"
  shows "format_hex w =
    [hex_digit (nat w div 4096), hex_digit (nat w div 256), hex_digit (nat w div 16),
     hex_digit (nat w)]"
proof -
  have p: "0 \<le> w div 4096" "0 \<le> w div 256" "0 \<le> w div 16"
    using assms by (simp_all add: pos_imp_zdiv_nonneg_iff)
  have "nat (w div 4096 mod 16) = nat (w div 4096) mod 16"
    using p(1) by (simp add: nat_mod_distrib)
  also have "nat (w div 4096) = nat w div 4096"
    using assms by (simp add: nat_div_distrib)
  finally have a: "hex_digit (nat (w div 4096 mod 16)) = hex_digit (nat w div 4096)"
    by (simp add: hex_digit_mod)
  have "nat (w div 256 mod 16) = nat (w div 256) mod 16"
    using p(2) by (simp add: nat_mod_distrib)
  also have "nat (w div 256) = nat w div 256"
    using assms by (simp add: nat_div_distrib)
  finally have b: "hex_digit (nat (w div 256 mod 16)) = hex_digit (nat w div 256)"
    by (simp add: hex_digit_mod)
  have "nat (w div 16 mod 16) = nat (w div 16) mod 16"
    using p(3) by (simp add: nat_mod_distrib)
  also have "nat (w div 16) = nat w div 16"
    using assms by (simp add: nat_div_distrib)
  finally have c: "hex_digit (nat (w div 16 mod 16)) = hex_digit (nat w div 16)"
    by (simp add: hex_digit_mod)
  have "nat (w mod 16) = nat w mod 16"
    using assms by (simp add: nat_mod_distrib)
  then have d: "hex_digit (nat (w mod 16)) = hex_digit (nat w)"
    by (simp add: hex_digit_mod)
  show ?thesis
    unfolding format_hex_def a b c d ..
qed

lemma format_04X_format_hex:
  assumes "0 \<le> w" and "w < 65536"
  shows "format_04X w = format_hex w"
proof -
  have n: "nat w < 65536" using assms by simp
  have "format_04X w = zero_pad 4 (hex_digits (nat w))"
    using assms by (simp add: format_04X_def)
  also have "\<dots> = format_hex w"
    unfolding zero_pad_hex_digits [OF n] format_hex_nat [OF assms(1)] ..
  finally show ?thesis .
qed

lemma length_format_hex: "length (format_hex w) = 4"
  by (simp add: format_hex_def)

lemma list_all_format_hex: "list_all is_upper_hex (format_hex w)"
  by (simp add: format_hex_def is_upper_hex_hex_digit)

section \<open>The quantizer on every float\<close>

lemma clamp_q15_PosInf: "clamp_q15 PosInf = Finite (32767 / 32768)"
  by (simp add: clamp_q15_def py_min_def py_max_def Q15_MAX_def)

lemma clamp_q15_NegInf: "clamp_q15 NegInf = Finite (- 1)"
  by (simp add: clamp_q15_def py_min_def py_max_def Q15_MAX_def)

lemma clamp_q15_NaN: "clamp_q15 NaN = Finite (- 1)"
  by (simp add: clamp_q15_def py_min_def py_max_def Q15_MAX_def)

lemma clamp_q15_total:
  obtains c where "clamp_q15 v = Finite c" and "- 1 \<le> c" and "c \<le> 32767 / 32768"
proof (cases v)
  case (Finite a)
  then show ?thesis
    using that [of "spec_clamp a"] spec_clamp_bounds [of a] by (simp add: clamp_q15_Finite)
next
  case PosInf
  then show ?thesis using that [of "32767 / 32768"] by (simp add: clamp_q15_PosInf)
next
  case NegInf
  then show ?thesis using that [of "- 1"] by (simp add: clamp_q15_NegInf)
next
  case NaN
  then show ?thesis using that [of "- 1"] by (simp add: clamp_q15_NaN)
qed

lemma round_scaled_bounds:
  assumes "- 1 \<le> c" and "c \<le> 32767 / 32768"
  shows "- 32768 \<le> round_half_even (c * 32768)" and "round_half_even (c * 32768) \<le> 32767"
proof -
  have "of_int (- 32768) \<le> c * 32768" using assms(1) by simp
  then show "- 32768 \<le> round_half_even (c * 32768)" by (rule round_half_even_lower)
  have "c * 32768 \<le> of_int 32767" using assms(2) by simp
  then show "round_half_even (c * 32768) \<le> 32767" by (rule round_half_even_upper)
qed

lemma py_round_clamped:
  assumes "clamp_q15 v = Finite c" and "- 1 \<le> c" and "c \<le> 32767 / 32768"
  shows "py_round (mul_32768 (clamp_q15 v)) = Inr (round_half_even (c * 32768))"
proof -
  have "c \<le> 1" using assms(3) by simp
  with assms(2) have "mul_32768 (Finite c) = Finite (c * 32768)" by (rule mul_32768_small)
  then show ?thesis by (simp add: assms(1))
qed

lemma overflow_guard_id:
  assumes "- 32768 \<le> q" and "q \<le> 32767"
  shows "overflow_guard q = q"
  using assms by (simp add: overflow_guard_def)

lemma to_unsigned16_range:
  assumes "- 32768 \<le> q" and "q \<le> 32767"
  shows "0 \<le> to_unsigned16 q" and "to_unsigned16 q < 65536"
  using assms by (simp_all add: to_unsigned16_def)

lemma q15_word_clamped:
  assumes "clamp_q15 v = Finite c" and "- 1 \<le> c" and "c \<le> 32767 / 32768"
  shows "q15_word v = Inr (to_unsigned16 (round_half_even (c * 32768)))"
proof -
  have "overflow_guard (round_half_even (c * 32768)) = round_half_even (c * 32768)"
    using round_scaled_bounds [OF assms(2,3)] by (rule overflow_guard_id)
  then show ?thesis
    by (simp add: q15_word_def py_round_clamped [OF assms])
qed

lemma float_to_q15_hex_clamped:
  assumes "clamp_q15 v = Finite c" and "- 1 \<le> c" and "c \<le> 32767 / 32768"
  shows "float_to_q15_hex v = Inr (format_hex (to_unsigned16 (round_half_even (c * 32768))))"
proof -
  let ?w = "to_unsigned16 (round_half_even (c * 32768))"
  have "0 \<le> ?w" and "?w < 65536"
    using round_scaled_bounds [OF assms(2,3)] by (rule to_unsigned16_range)+
  then have "format_04X ?w = format_hex ?w" by (rule format_04X_format_hex)
  then show ?thesis
    by (simp add: float_to_q15_hex_def q15_word_clamped [OF assms])
qed

section \<open>The claims\<close>

text \<open>
  C4. For every float, NaN and the infinities included, \<open>float_to_q15_hex\<close> returns a
  string of exactly four characters, each an uppercase hexadecimal digit: the encoded word
  is always between 0 and 65535, so \<open>'04X'\<close> pads it to four digits and never needs a
  fifth.
\<close>

theorem hex_format_invariant:
  "\<exists>h. float_to_q15_hex v = Inr h \<and> length h = 4 \<and> list_all is_upper_hex h"
proof -
  obtain c where c: "clamp_q15 v = Finite c" "- 1 \<le> c" "c \<le> 32767 / 32768"
    by (rule clamp_q15_total)
  show ?thesis
    unfolding float_to_q15_hex_clamped [OF c]
    by (simp add: length_format_hex list_all_format_hex)
qed

lemma float_to_q15_hex_Finite:
  "float_to_q15_hex (Finite a) =
     Inr (format_hex (to_unsigned16 (round_half_even (spec_clamp a * 32768))))"
  using spec_clamp_bounds [of a]
  by (intro float_to_q15_hex_clamped) (simp_all add: clamp_q15_Finite)

lemma quantize_round_half_even:
  "quantize round_half_even a = to_unsigned16 (round_half_even (spec_clamp a * 32768))"
proof -
  have "spec_guard (round_half_even (spec_clamp a * 32768)) =
      round_half_even (spec_clamp a * 32768)"
    using round_scaled_bounds [of "spec_clamp a"] spec_clamp_bounds [of a]
    by (simp add: spec_guard_def)
  then show ?thesis
    by (simp add: quantize_def spec_encode_def to_unsigned16_def)
qed

text \<open>
  C1. On every finite float \<open>float_to_q15_hex\<close> computes the four steps of the
  specification's \<open>quantize\<close>: the clamp to \<open>[-1, 32767/32768]\<close>, the product with 32768
  rounded to a nearest integer (the code's rounding sends ties to the even neighbour), the
  clamp of that integer to \<open>[-32768, 32767]\<close>, and 65536 added to a negative result. The
  word that is formatted lies between 0 and 65535.
\<close>

theorem float_to_q15_hex_four_steps:
  "q15_word (Finite a) = Inr (quantize round_half_even a)
   \<and> float_to_q15_hex (Finite a) = Inr (format_04X (quantize round_half_even a))
   \<and> nearest_int (spec_clamp a * 32768) (round_half_even (spec_clamp a * 32768))
   \<and> 0 \<le> quantize round_half_even a \<and> quantize round_half_even a \<le> 65535"
proof -
  have c: "clamp_q15 (Finite a) = Finite (spec_clamp a)" "- 1 \<le> spec_clamp a"
    "spec_clamp a \<le> 32767 / 32768"
    using spec_clamp_bounds [of a] by (simp_all add: clamp_q15_Finite)
  have w: "q15_word (Finite a) = Inr (quantize round_half_even a)"
    by (simp add: q15_word_clamped [OF c] quantize_round_half_even)
  have r: "0 \<le> quantize round_half_even a" "quantize round_half_even a < 65536"
    unfolding quantize_round_half_even
    using round_scaled_bounds [OF c(2,3)] by (rule to_unsigned16_range)+
  have n: "nearest_int (spec_clamp a * 32768) (round_half_even (spec_clamp a * 32768))"
    unfolding nearest_int_def by (rule round_half_even_nearest)
  from w r n show ?thesis by (simp add: float_to_q15_hex_def)
qed

text \<open>
  C5. After the clamp of line 14 the rounded integer of a finite input already lies in
  \<open>[-32768, 32767]\<close>: \<open>round\<close> returns, and the overflow guard of lines 20 to 23 leaves
  its result unchanged.
\<close>

theorem overflow_guard_unreachable:
  "\<exists>q. py_round (mul_32768 (clamp_q15 (Finite a))) = Inr q
     \<and> - 32768 \<le> q \<and> q \<le> 32767 \<and> overflow_guard q = q"
proof -
  have c: "clamp_q15 (Finite a) = Finite (spec_clamp a)" "- 1 \<le> spec_clamp a"
    "spec_clamp a \<le> 32767 / 32768"
    using spec_clamp_bounds [of a] by (simp_all add: clamp_q15_Finite)
  let ?q = "round_half_even (spec_clamp a * 32768)"
  have b: "- 32768 \<le> ?q" "?q \<le> 32767" by (rule round_scaled_bounds [OF c(2,3)])+
  then have "overflow_guard ?q = ?q" by (rule overflow_guard_id)
  with b py_round_clamped [OF c] show ?thesis by blast
qed

lemma hex_max: "float_to_q15_hex (Finite (32767 / 32768)) = Inr ''7FFF''"
  by (simp add: float_to_q15_hex_Finite spec_clamp_def round_half_even_def to_unsigned16_def
      format_hex_def hex_digit_def)

lemma hex_min: "float_to_q15_hex (Finite (- 1)) = Inr ''8000''"
  by (simp add: float_to_q15_hex_Finite spec_clamp_def round_half_even_def to_unsigned16_def
      format_hex_def hex_digit_def)

lemma hex_above:
  assumes "32767 / 32768 < a"
  shows "float_to_q15_hex (Finite a) = float_to_q15_hex (Finite (32767 / 32768))"
proof -
  have "spec_clamp a = spec_clamp (32767 / 32768)" using assms by (simp add: spec_clamp_def)
  then show ?thesis by (simp only: float_to_q15_hex_Finite)
qed

lemma hex_below:
  assumes "b < - 1"
  shows "float_to_q15_hex (Finite b) = float_to_q15_hex (Finite (- 1))"
proof -
  have "spec_clamp b = spec_clamp (- 1)" using assms by (simp add: spec_clamp_def)
  then show ?thesis by (simp only: float_to_q15_hex_Finite)
qed

text \<open>
  C2. Quantization saturates at the bounds of Q1.15: \<open>32767/32768\<close> gives \<open>7FFF\<close>,
  \<open>-1\<close> gives \<open>8000\<close>, every finite input above the upper bound behaves as the upper
  bound and every finite input below \<open>-1\<close> as \<open>-1\<close>; in particular \<open>1.5\<close> and \<open>-2.0\<close>.
\<close>

theorem saturation:
  "float_to_q15_hex (Finite (32767 / 32768)) = Inr ''7FFF''
   \<and> float_to_q15_hex (Finite (- 1)) = Inr ''8000''
   \<and> (32767 / 32768 < a \<longrightarrow>
        float_to_q15_hex (Finite a) = float_to_q15_hex (Finite (32767 / 32768)))
   \<and> (b < - 1 \<longrightarrow> float_to_q15_hex (Finite b) = float_to_q15_hex (Finite (- 1)))
   \<and> float_to_q15_hex (Finite (3 / 2)) = float_to_q15_hex (Finite (32767 / 32768))
   \<and> float_to_q15_hex (Finite (- 2)) = float_to_q15_hex (Finite (- 1))"
  using hex_max hex_min hex_above [of a] hex_below [of b] hex_above [of "3 / 2"]
    hex_below [of "- 2"]
  by simp

theorem saturation_witness:
  "(32767 / 32768 :: rat) < 3 / 2 \<and> (- 2 :: rat) < - 1
   \<and> float_to_q15_hex (Finite (3 / 2)) = Inr ''7FFF''
   \<and> float_to_q15_hex (Finite (- 2)) = Inr ''8000''"
  using saturation [of "3 / 2" "- 2"] by simp

lemma hex_NaN: "float_to_q15_hex NaN = Inr ''8000''"
  using float_to_q15_hex_clamped [of NaN "- 1"]
  by (simp add: clamp_q15_NaN round_half_even_def to_unsigned16_def format_hex_def hex_digit_def)

lemma hex_NegInf: "float_to_q15_hex NegInf = Inr ''8000''"
  using float_to_q15_hex_clamped [of NegInf "- 1"]
  by (simp add: clamp_q15_NegInf round_half_even_def to_unsigned16_def format_hex_def
      hex_digit_def)

lemma hex_PosInf: "float_to_q15_hex PosInf = Inr ''7FFF''"
  using float_to_q15_hex_clamped [of PosInf "32767 / 32768"]
  by (simp add: clamp_q15_PosInf round_half_even_def to_unsigned16_def format_hex_def
      hex_digit_def)

lemma float_to_q15_hex_total: "\<exists>h. float_to_q15_hex v = Inr h"
proof -
  obtain c where c: "clamp_q15 v = Finite c" "- 1 \<le> c" "c \<le> 32767 / 32768"
    by (rule clamp_q15_total)
  show ?thesis unfolding float_to_q15_hex_clamped [OF c] by simp
qed

text \<open>
  C9. \<open>float_to_q15_hex\<close> raises on no float. \<open>min(NaN, 0.999969482421875)\<close> is NaN and
  \<open>max(-1.0, NaN)\<close> is \<open>-1.0\<close>, so NaN gives \<open>8000\<close>; plus infinity gives \<open>7FFF\<close> and
  minus infinity \<open>8000\<close>.
\<close>

theorem non_finite_inputs:
  "(\<exists>h. float_to_q15_hex v = Inr h)
   \<and> py_min NaN (Finite Q15_MAX) = NaN \<and> py_max (Finite (- 1)) NaN = Finite (- 1)
   \<and> float_to_q15_hex NaN = Inr ''8000''
   \<and> float_to_q15_hex PosInf = Inr ''7FFF''
   \<and> float_to_q15_hex NegInf = Inr ''8000''"
  using float_to_q15_hex_total [of v] hex_NaN hex_PosInf hex_NegInf
  by (simp add: py_min_def py_max_def)

lemma round_half_even_top:
  assumes "65533 / 2 < x" and "x \<le> 32767"
  shows "round_half_even x = 32767"
proof (cases "x = 32767")
  case True
  then show ?thesis using round_half_even_of_int [of 32767] by simp
next
  case False
  with assms have "of_int 32766 \<le> x" "x < of_int 32766 + 1" by simp_all
  then have "\<lfloor>x\<rfloor> = 32766" by (subst floor_unique) simp_all
  then show ?thesis using assms(1) by (simp add: round_half_even_def)
qed

lemma CLIP_HI_bounds: "65533 / 2 < CLIP_HI * 32768" "CLIP_HI < 32767 / 32768" "- 1 \<le> CLIP_HI"
  by (simp_all add: CLIP_HI_def)

lemma np_clip_round:
  "round_half_even (min (max a (- 1)) CLIP_HI * 32768) =
     round_half_even (spec_clamp a * 32768)"
proof (cases "a \<le> CLIP_HI")
  case True
  then have "min (max a (- 1)) CLIP_HI = spec_clamp a"
    using CLIP_HI_bounds by (simp add: spec_clamp_def)
  then show ?thesis by simp
next
  case False
  then have l: "min (max a (- 1)) CLIP_HI = CLIP_HI"
    using CLIP_HI_bounds by simp
  have "CLIP_HI < spec_clamp a" "spec_clamp a \<le> 32767 / 32768"
    using False CLIP_HI_bounds by (simp_all add: spec_clamp_def)
  then have "65533 / 2 < spec_clamp a * 32768" "spec_clamp a * 32768 \<le> 32767"
    using CLIP_HI_bounds(1) by simp_all
  then have "round_half_even (spec_clamp a * 32768) = 32767" by (rule round_half_even_top)
  moreover have "round_half_even (CLIP_HI * 32768) = 32767"
    using CLIP_HI_bounds by (intro round_half_even_top) simp_all
  ultimately show ?thesis by (simp add: l)
qed

lemma trunc_rat_of_int: "trunc_rat (of_int k) = k"
  by (simp add: trunc_rat_def)

lemma convert_to_fixed_point_q15_Finite:
  "convert_to_fixed_point_q15 (Finite a) =
     Inr (word_of_int (round_half_even (spec_clamp a * 32768)))"
proof -
  let ?c = "min (max a (- 1)) CLIP_HI"
  have b: "- 1 \<le> ?c" "?c \<le> 1" using CLIP_HI_bounds by simp_all
  have m: "mul_32768 (Finite ?c) = Finite (?c * 32768)" using b by (rule mul_32768_small)
  have r: "- 32768 \<le> round_half_even (spec_clamp a * 32768)"
    "round_half_even (spec_clamp a * 32768) \<le> 32767"
    using round_scaled_bounds [of "spec_clamp a"] spec_clamp_bounds [of a] by simp_all
  have "convert_to_fixed_point_q15 (Finite a) =
      astype_int16 (np_round (Finite (?c * 32768)))"
    unfolding convert_to_fixed_point_q15_def np_clip.simps m ..
  also have "\<dots> = astype_int16 (Finite (of_int (round_half_even (spec_clamp a * 32768))))"
    by (simp only: np_round.simps np_clip_round)
  also have "\<dots> = Inr (word_of_int (round_half_even (spec_clamp a * 32768)))"
    using r by (simp add: trunc_rat_of_int)
  finally show ?thesis .
qed

lemma hex_val_word_of_int:
  assumes "- 32768 \<le> k" and "k \<le> 32767"
  shows "hex_val (word_of_int k :: 16 word) = to_unsigned16 k"
proof -
  have "sint (word_of_int k :: 16 word) = signed_take_bit 15 k"
    by (simp add: sint_sbintrunc')
  also have "\<dots> = k"
    using assms by (intro signed_take_bit_int_eq_self) simp_all
  finally have "sint (word_of_int k :: 16 word) = k" .
  moreover have "k AND 65535 = k mod 65536"
    using take_bit_eq_mask [of 16 k] by (simp add: take_bit_eq_mod mask_eq_exp_minus_1)
  moreover have "k mod 65536 = to_unsigned16 k"
  proof (cases "k < 0")
    case True
    then have "(k + 65536) mod 65536 = k + 65536"
      using assms by (intro mod_pos_pos_trivial) simp_all
    then have "k mod 65536 = k + 65536" by simp
    with True show ?thesis by (simp add: to_unsigned16_def)
  next
    case False
    then show ?thesis using assms by (simp add: to_unsigned16_def)
  qed
  ultimately show ?thesis by (simp add: hex_val_def)
qed

lemma save_q15_hex_Finite:
  "save_q15_hex (Finite a) =
     Inr (format_hex (to_unsigned16 (round_half_even (spec_clamp a * 32768))))"
proof -
  let ?q = "round_half_even (spec_clamp a * 32768)"
  have r: "- 32768 \<le> ?q" "?q \<le> 32767"
    using round_scaled_bounds [of "spec_clamp a"] spec_clamp_bounds [of a] by simp_all
  have h: "hex_val (word_of_int ?q :: 16 word) = to_unsigned16 ?q"
    using r by (rule hex_val_word_of_int)
  have "0 \<le> to_unsigned16 ?q" "to_unsigned16 ?q < 65536"
    using r by (rule to_unsigned16_range)+
  then have "format_04X (to_unsigned16 ?q) = format_hex (to_unsigned16 ?q)"
    by (rule format_04X_format_hex)
  then show ?thesis
    by (simp add: save_q15_hex_def convert_to_fixed_point_q15_Finite h)
qed

text \<open>
  C6. The two quantizers agree on every finite input: the string of \<open>float_to_q15_hex\<close>
  is the line that \<open>save_q15_hex\<close> writes for \<open>convert_to_fixed_point_q15\<close>, although the
  first clamps at \<open>0.999969482421875\<close> and the second at \<open>0.999969\<close>: every value between
  the two bounds rounds to 32767 after scaling.
\<close>

theorem quantizers_agree: "float_to_q15_hex (Finite a) = save_q15_hex (Finite a)"
  by (simp only: float_to_q15_hex_Finite save_q15_hex_Finite)

lemma round_half_even_tie:
  "round_half_even (of_int k + 1 / 2) = (if even k then k else k + 1)"
proof -
  have "\<lfloor>(of_int k :: rat) + 1 / 2\<rfloor> = k" by (subst floor_unique) simp_all
  then show ?thesis by (simp add: round_half_even_def)
qed

lemma round_half_even_half: "round_half_even (1 / 2) = 0"
  using round_half_even_tie [of 0] by simp

lemma round_half_even_three_halves: "round_half_even (3 / 2) = 2"
  using round_half_even_tie [of 1] by simp

lemma hex_tie_1: "float_to_q15_hex (Finite (1 / 65536)) = Inr ''0000''"
  by (simp add: float_to_q15_hex_Finite spec_clamp_def round_half_even_half to_unsigned16_def
      format_hex_def hex_digit_def)

lemma hex_tie_3: "float_to_q15_hex (Finite (3 / 65536)) = Inr ''0002''"
  by (simp add: float_to_q15_hex_Finite spec_clamp_def round_half_even_three_halves
      to_unsigned16_def format_hex_def hex_digit_def)

text \<open>
  C10. Both implementations round a tie to the even neighbour: when the clamped value
  times 32768 is \<open>k + 1/2\<close> for an integer \<open>k\<close>, the rounded integer is \<open>k\<close> for even
  \<open>k\<close> and \<open>k + 1\<close> for odd \<open>k\<close>. So \<open>1/65536\<close> gives \<open>0000\<close> and \<open>3/65536\<close> gives
  \<open>0002\<close>.
\<close>

theorem ties_to_even:
  "(spec_clamp a * 32768 = of_int k + 1 / 2 \<longrightarrow>
      q15_word (Finite a) = Inr (to_unsigned16 (if even k then k else k + 1)))
   \<and> (min (max a (- 1)) CLIP_HI * 32768 = of_int k + 1 / 2 \<longrightarrow>
      convert_to_fixed_point_q15 (Finite a) = Inr (word_of_int (if even k then k else k + 1)))
   \<and> float_to_q15_hex (Finite (1 / 65536)) = Inr ''0000''
   \<and> float_to_q15_hex (Finite (3 / 65536)) = Inr ''0002''
   \<and> save_q15_hex (Finite (1 / 65536)) = Inr ''0000''
   \<and> save_q15_hex (Finite (3 / 65536)) = Inr ''0002''"
proof -
  have c: "clamp_q15 (Finite a) = Finite (spec_clamp a)" "- 1 \<le> spec_clamp a"
    "spec_clamp a \<le> 32767 / 32768"
    using spec_clamp_bounds [of a] by (simp_all add: clamp_q15_Finite)
  have 1: "q15_word (Finite a) = Inr (to_unsigned16 (if even k then k else k + 1))"
    if "spec_clamp a * 32768 = of_int k + 1 / 2"
    unfolding q15_word_clamped [OF c] that round_half_even_tie ..
  have 2: "convert_to_fixed_point_q15 (Finite a) =
      Inr (word_of_int (if even k then k else k + 1))"
    if "min (max a (- 1)) CLIP_HI * 32768 = of_int k + 1 / 2"
    unfolding convert_to_fixed_point_q15_Finite np_clip_round [symmetric] that
      round_half_even_tie ..
  have 3: "save_q15_hex (Finite (1 / 65536)) = Inr ''0000''"
    "save_q15_hex (Finite (3 / 65536)) = Inr ''0002''"
    using hex_tie_1 hex_tie_3 by (simp_all only: float_to_q15_hex_Finite save_q15_hex_Finite)
  from 1 2 3 hex_tie_1 hex_tie_3 show ?thesis by blast
qed

theorem ties_to_even_witness:
  "spec_clamp (3 / 65536) * 32768 = of_int 1 + 1 / 2
   \<and> min (max (3 / 65536) (- 1)) CLIP_HI * 32768 = of_int 1 + 1 / 2
   \<and> q15_word (Finite (3 / 65536)) = Inr 2
   \<and> convert_to_fixed_point_q15 (Finite (3 / 65536)) = Inr 2"
proof -
  have h: "spec_clamp (3 / 65536) * 32768 = of_int 1 + 1 / 2"
    "min (max (3 / 65536) (- 1)) CLIP_HI * 32768 = of_int 1 + 1 / 2"
    by (simp_all add: spec_clamp_def CLIP_HI_def)
  show ?thesis
    using h ties_to_even [of "3 / 65536" 1] by (simp add: to_unsigned16_def)
qed

lemma hex_value_hex_digit_mod: "hex_value (hex_digit n) = n mod 16"
proof -
  have "hex_value (hex_digit (n mod 16)) = n mod 16"
    by (rule hex_value_hex_digit) simp
  then show ?thesis by (simp only: hex_digit_mod)
qed

lemma parse_hex_4:
  "parse_hex [a, b, c, d] =
     int (4096 * hex_value a + 256 * hex_value b + 16 * hex_value c + hex_value d)"
  by (simp add: parse_hex_def)

lemma base16_split:
  fixes n :: nat
  assumes "n < 65536"
  shows "4096 * (n div 4096 mod 16) + 256 * (n div 256 mod 16) + 16 * (n div 16 mod 16)
      + n mod 16 = n"
proof -
  have a: "n div 4096 mod 16 = n div 4096"
    using assms by (intro mod_less) simp
  have b: "n div 256 div 16 = n div 4096" "n div 16 div 16 = n div 256"
    by (simp_all add: div_mult2_eq [symmetric])
  have "n = 16 * (n div 16) + n mod 16" by simp
  also have "n div 16 = 16 * (n div 16 div 16) + n div 16 mod 16" by simp
  also have "n div 16 div 16 = n div 256" by (simp add: b)
  also have "n div 256 = 16 * (n div 256 div 16) + n div 256 mod 16" by simp
  also have "n div 256 div 16 = n div 4096" by (simp add: b)
  finally have "n = 4096 * (n div 4096) + 256 * (n div 256 mod 16) + 16 * (n div 16 mod 16)
      + n mod 16"
    by simp
  then show ?thesis by (simp only: a)
qed

lemma parse_hex_format_hex:
  assumes "0 \<le> w" and "w < 65536"
  shows "parse_hex (format_hex w) = w"
proof -
  have n: "nat w < 65536" using assms by simp
  have "parse_hex (format_hex w) =
      int (4096 * (nat w div 4096 mod 16) + 256 * (nat w div 256 mod 16)
        + 16 * (nat w div 16 mod 16) + nat w mod 16)"
    unfolding format_hex_nat [OF assms(1)] parse_hex_4 hex_value_hex_digit_mod ..
  also have "\<dots> = int (nat w)"
    by (simp only: base16_split [OF n])
  also have "\<dots> = w" using assms(1) by simp
  finally show ?thesis .
qed

lemma signed_of_unsigned:
  assumes "- 32768 \<le> q" and "q \<le> 32767"
  shows "(if to_unsigned16 q \<ge> 32768 then to_unsigned16 q - 65536 else to_unsigned16 q) = q"
  using assms by (simp add: to_unsigned16_def)

lemma decode_q15_clamped:
  assumes "- 1 \<le> c" and "c \<le> 32767 / 32768"
  shows "decode_q15 (format_hex (to_unsigned16 (round_half_even (c * 32768)))) =
    of_int (round_half_even (c * 32768)) / 32768"
proof -
  let ?q = "round_half_even (c * 32768)"
  have r: "- 32768 \<le> ?q" "?q \<le> 32767" by (rule round_scaled_bounds [OF assms])+
  have "0 \<le> to_unsigned16 ?q" "to_unsigned16 ?q < 65536"
    using r by (rule to_unsigned16_range)+
  then have "parse_hex (format_hex (to_unsigned16 ?q)) = to_unsigned16 ?q"
    by (rule parse_hex_format_hex)
  then show ?thesis
    unfolding decode_q15_def Let_def by (simp only: signed_of_unsigned [OF r])
qed

lemma quantization_error:
  "\<bar>of_int (round_half_even (c * 32768)) / 32768 - c\<bar> \<le> 1 / 65536"
proof -
  define e where "e = of_int (round_half_even (c * 32768)) - c * 32768"
  have "\<bar>e\<bar> \<le> 1 / 2"
    unfolding e_def by (rule round_half_even_nearest)
  then have le: "\<bar>e\<bar> / 32768 \<le> (1 / 2) / 32768"
    by (rule divide_right_mono) simp
  have eq: "of_int (round_half_even (c * 32768)) / 32768 - c = e / 32768"
    unfolding e_def by (simp add: diff_divide_distrib)
  have "\<bar>of_int (round_half_even (c * 32768)) / 32768 - c\<bar> = \<bar>e / 32768\<bar>"
    by (simp only: eq)
  also have "\<dots> = \<bar>e\<bar> / 32768" by simp
  also have "\<dots> \<le> (1 / 2) / 32768" by (rule le)
  also have "\<dots> = 1 / 65536" by simp
  finally show ?thesis .
qed

text \<open>
  C3. Round trip: for every finite input, the hex word that \<open>float_to_q15_hex\<close> returns,
  decoded to a signed 16-bit integer (65536 subtracted from an unsigned value of at least
  32768) and divided by 32768, is within \<open>1/32768\<close> of the clamped input.
\<close>

theorem round_trip_error_bound:
  "\<exists>h c. float_to_q15_hex (Finite a) = Inr h \<and> clamp_q15 (Finite a) = Finite c
     \<and> c = spec_clamp a \<and> \<bar>decode_q15 h - c\<bar> \<le> 1 / 32768"
proof -
  let ?c = "spec_clamp a"
  have b: "- 1 \<le> ?c" "?c \<le> 32767 / 32768" using spec_clamp_bounds [of a] by simp_all
  have "\<bar>of_int (round_half_even (?c * 32768)) / 32768 - ?c\<bar> \<le> 1 / 65536"
    by (rule quantization_error)
  then have "\<bar>decode_q15 (format_hex (to_unsigned16 (round_half_even (?c * 32768)))) - ?c\<bar>
      \<le> 1 / 32768"
    unfolding decode_q15_clamped [OF b] by simp
  then show ?thesis
    using float_to_q15_hex_Finite [of a] clamp_q15_Finite [of a] by blast
qed

end
